theory Spec2Isabelle
  imports Main "HOL-Library.Sublist"
begin

section \<open>Data model\<close>

text \<open>
  The exceptions the modelled code can raise, as values. \<open>NotImplementedError\<close> is raised
  explicitly by the source; \<open>KeyError\<close> by a failed dictionary or column lookup,
  \<open>TypeError\<close> by a membership test on \<open>None\<close> and by resampling a frame without a
  datetime index, \<open>ValueError\<close> by a structured-array access that names a missing or
  repeated field.
\<close>

datatype error = NotImplementedError | KeyError | TypeError | ValueError

text \<open>
  One record of a structured array gives a number to every field name; only the fields
  listed in the array's \<open>dtype.names\<close> are meaningful. The \<open>float64\<close> columns are read as
  exact numbers (rounding and NaN in stored data are outside the model), the \<open>uint64\<close>
  \<open>datetime\<close> column as an integer.
\<close>

type_synonym bar = "string \<Rightarrow> int"

record bars =
  names :: "string list"
  recs :: "bar list"

record instrument =
  type :: string
  order_book_id :: string

text \<open>
  \<open>self._day_bars\<close>: the four \<open>DayBarStore\<close>s, by index; \<open>get_bars\<close> of a store gives
  the series of an order book id, or \<open>None\<close>. The stores are external collaborators and
  are a parameter of every operation.
\<close>

type_synonym day_bars = "nat \<Rightarrow> string \<Rightarrow> bars option"

text \<open>The \<open>fields\<close> argument: \<open>None\<close>, one field name, or a (mutable) list of names.\<close>

datatype fields = FNone | FStr string | FList "string list"

text \<open>What \<open>history_bars\<close> returns: a structured array, or (for one field name) a plain column.\<close>

datatype history = Records bars | Column "int list"

section \<open>Structured-array primitives\<close>

text \<open>\<open>bars[f]\<close> for a field name \<open>f\<close>: the column, or an error when no field has that name.\<close>

definition getitem :: "bars \<Rightarrow> string \<Rightarrow> error + int list" where
  "getitem b f = (if f \<in> set (names b) then Inr (map (\<lambda>r. r f) (recs b)) else Inl ValueError)"

text \<open>
  \<open>numpy.searchsorted\<close>: binary search between \<open>lo\<close> and \<open>hi\<close>; with \<open>side = 'left'\<close>
  the search moves right past elements \<open>< v\<close>, with \<open>side = 'right'\<close> past elements \<open>\<le> v\<close>.
\<close>

datatype side = SideLeft | SideRight

definition goes_right :: "side \<Rightarrow> int \<Rightarrow> int \<Rightarrow> bool" where
  "goes_right s x v = (case s of SideLeft \<Rightarrow> x < v | SideRight \<Rightarrow> x \<le> v)"

function bisect :: "side \<Rightarrow> int list \<Rightarrow> int \<Rightarrow> nat \<Rightarrow> nat \<Rightarrow> nat" where
  "bisect s a v lo hi =
     (if lo < hi then
        (let mid = lo + (hi - lo) div 2 in
         if goes_right s (a ! mid) v then bisect s a v (mid + 1) hi
         else bisect s a v lo mid)
      else lo)"
  by pat_completeness auto
termination
  by (relation "measure (\<lambda>(s, a, v, lo, hi). hi - lo)") auto

declare bisect.simps [simp del]

definition searchsorted :: "int list \<Rightarrow> int \<Rightarrow> side \<Rightarrow> nat" where
  "searchsorted a v s = bisect s a v 0 (length a)"

text \<open>
  What the search promises on an ascending column: position \<open>i\<close> splits it into the
  elements the search passes and those it does not.
\<close>

definition split_at :: "side \<Rightarrow> int list \<Rightarrow> int \<Rightarrow> nat \<Rightarrow> bool" where
  "split_at s a v i \<longleftrightarrow>
     (\<forall>j<i. goes_right s (a ! j) v) \<and> (\<forall>j. i \<le> j \<and> j < length a \<longrightarrow> \<not> goes_right s (a ! j) v)"

section \<open>The cached series\<close>

definition INSTRUMENT_TYPE_MAP :: "string \<rightharpoonup> nat" where
  "INSTRUMENT_TYPE_MAP = map_of
     [(''CS'', 0), (''INDX'', 1), (''Future'', 2), (''ETF'', 3), (''LOF'', 3),
      (''FenjiA'', 3), (''FenjiB'', 3), (''FenjiMu'', 3)]"

definition index_of :: "instrument \<Rightarrow> error + nat" where
  "index_of ins = (case INSTRUMENT_TYPE_MAP (type ins) of None \<Rightarrow> Inl KeyError | Some i \<Rightarrow> Inr i)"

text \<open>
  \<open>_all_day_bars_of\<close> and \<open>_filtered_day_bars\<close>. The \<open>lru_cache\<close> decorator only saves the
  recomputation of a value that depends on nothing but the instrument and the immutable
  stores, so the model is the function itself.
\<close>

definition all_day_bars_of :: "day_bars \<Rightarrow> instrument \<Rightarrow> error + bars option" where
  "all_day_bars_of st ins =
     (case index_of ins of Inl e \<Rightarrow> Inl e | Inr i \<Rightarrow> Inr (st i (order_book_id ins)))"

definition filtered_day_bars :: "day_bars \<Rightarrow> instrument \<Rightarrow> error + bars option" where
  "filtered_day_bars st ins =
     (case all_day_bars_of st ins of
        Inl e \<Rightarrow> Inl e
      | Inr None \<Rightarrow> Inr None
      | Inr (Some b) \<Rightarrow>
          (case getitem b ''volume'' of
             Inl e \<Rightarrow> Inl e
           | Inr _ \<Rightarrow> Inr (Some (b\<lparr>recs := filter (\<lambda>r. r ''volume'' > 0) (recs b)\<rparr>))))"

section \<open>Exact-date lookup\<close>

text \<open>
  \<open>get_bar\<close>. \<open>convert_date_to_int\<close> is imported from a module outside the sources and is
  a parameter (\<open>conv\<close>): any encoding of dates as integers.
\<close>

definition get_bar ::
  "day_bars \<Rightarrow> ('d \<Rightarrow> int) \<Rightarrow> instrument \<Rightarrow> 'd \<Rightarrow> string \<Rightarrow> error + bar option" where
  "get_bar st conv ins dt frequency =
     (if frequency \<noteq> ''1d'' then Inl NotImplementedError
      else case all_day_bars_of st ins of
        Inl e \<Rightarrow> Inl e
      | Inr None \<Rightarrow> Inr None
      | Inr (Some b) \<Rightarrow>
          (case getitem b ''datetime'' of
             Inl e \<Rightarrow> Inl e
           | Inr col \<Rightarrow>
               (let k = conv dt; pos = searchsorted col k SideLeft in
                if pos \<ge> length (recs b) \<or> col ! pos \<noteq> k then Inr None
                else Inr (Some (recs b ! pos)))))"

section \<open>Field validation\<close>

text \<open>\<open>_are_fields_valid\<close>; the \<open>for\<close> loop over a list of names is \<open>all_valid\<close>.\<close>

fun all_valid :: "string list \<Rightarrow> string list \<Rightarrow> bool" where
  "all_valid [] valid_fields = True"
| "all_valid (field # rest) valid_fields =
     (if field \<notin> set valid_fields then False else all_valid rest valid_fields)"

fun are_fields_valid :: "fields \<Rightarrow> string list \<Rightarrow> bool" where
  "are_fields_valid FNone valid_fields = True"
| "are_fields_valid (FStr s) valid_fields = (s \<in> set valid_fields)"
| "are_fields_valid (FList fs) valid_fields = all_valid fs valid_fields"

section \<open>Resampling\<close>

text \<open>
  The \<open>handler\<close> table of \<open>_resample_k_bars\<close>: the aggregation method of each field. The
  method names \<open>"last"\<close>, \<open>"first"\<close>, \<open>"max"\<close>, \<open>"min"\<close>, \<open>"sum"\<close>, which the source looks
  up with \<open>getattr\<close>, are the constructors of \<open>how\<close>.
\<close>

datatype how = Last | First | Maximum | Minimum | Sum

definition handler :: "string \<rightharpoonup> how" where
  "handler = map_of
     [(''datetime'', Last), (''open'', First), (''high'', Maximum), (''low'', Minimum),
      (''close'', Last), (''volume'', Sum), (''total_turnover'', Sum)]"

text \<open>
  A method applied to the values of one bin; \<open>None\<close> is pandas' NaN, the result of every
  method but \<open>sum\<close> on a bin without rows.
\<close>

fun aggregate :: "how \<Rightarrow> int list \<Rightarrow> int option" where
  "aggregate Sum xs = Some (sum_list xs)"
| "aggregate m [] = None"
| "aggregate Last xs = Some (last xs)"
| "aggregate First xs = Some (hd xs)"
| "aggregate Maximum xs = Some (Max (set xs))"
| "aggregate Minimum xs = Some (Min (set xs))"

text \<open>
  \<open>bars_df.resample(frequency)\<close>, after the frame was indexed by
  \<open>convert_int_to_datetime\<close> of its \<open>datetime\<close> column. Both the conversion (a module outside
  the sources) and the binning rule (pandas) are in the parameter \<open>bin\<close>:
  \<open>bin frequency k\<close> is the number of the bin of rule \<open>frequency\<close> that holds the date
  encoded by \<open>k\<close>, consecutive bins having consecutive numbers. The resampler has one group
  for every bin from the first occupied one to the last, occupied or not.
\<close>

definition resample :: "(string \<Rightarrow> int \<Rightarrow> int) \<Rightarrow> string \<Rightarrow> bar list \<Rightarrow> bar list list" where
  "resample bin frequency rs =
     (let ls = map (\<lambda>r. bin frequency (r ''datetime'')) rs
      in map (\<lambda>l. filter (\<lambda>r. bin frequency (r ''datetime'') = l) rs)
             [Min (set ls) .. Max (set ls)])"

text \<open>
  The loop \<open>for field in fds: df[field] = getattr(agg[field], handler[field])()\<close>.
  \<open>agg[field]\<close> raises \<open>KeyError\<close> for a field that is no column of the frame,
  \<open>handler[field]\<close> for a field that is not in the table. Assigning a column that the
  frame already has keeps its place; a new column comes last. \<open>agg_loop\<close> gives the
  columns of \<open>df\<close> after the loop, \<open>cell\<close> the entry of a column for one group.
\<close>

fun agg_loop :: "string list \<Rightarrow> string list \<Rightarrow> string list \<Rightarrow> error + string list" where
  "agg_loop columns df [] = Inr df"
| "agg_loop columns df (field # fds) =
     (if field \<notin> set columns then Inl KeyError
      else case handler field of
        None \<Rightarrow> Inl KeyError
      | Some m \<Rightarrow> agg_loop columns (if field \<in> set df then df else df @ [field]) fds)"

definition cell :: "string \<Rightarrow> bar list \<Rightarrow> int option" where
  "cell field g = (case handler field of None \<Rightarrow> None | Some m \<Rightarrow> aggregate m (map (\<lambda>r. r field) g))"

text \<open>
  Lines 148 to 170 of \<open>_resample_k_bars\<close>, for the normalised field list \<open>fds\<close>: the frame
  (\<open>KeyError\<close> without a \<open>datetime\<close> column; a frame without rows has no datetime index
  and \<open>resample\<close> raises \<open>TypeError\<close>), the loop, \<open>dropna\<close> (a row with a NaN in any
  column goes), \<open>astype\<close> (nothing to do on integers) and \<open>to_records\<close>.
\<close>

definition aggregate_frame ::
  "(string \<Rightarrow> int \<Rightarrow> int) \<Rightarrow> bars \<Rightarrow> string list \<Rightarrow> string \<Rightarrow> error + bars" where
  "aggregate_frame bin b fds frequency =
     (if ''datetime'' \<notin> set (names b) then Inl KeyError
      else if recs b = [] then Inl TypeError
      else case agg_loop (names b) [] fds of
        Inl e \<Rightarrow> Inl e
      | Inr df \<Rightarrow>
          (let groups = resample bin frequency (recs b);
               kept = filter (\<lambda>g. \<forall>f \<in> set df. cell f g \<noteq> None) groups
           in Inr \<lparr>names = df,
                   recs = map (\<lambda>g f. if f \<in> set df
                                      then (case cell f g of None \<Rightarrow> 0 | Some x \<Rightarrow> x) else 0) kept\<rparr>))"

text \<open>
  \<open>_resample_k_bars\<close>. Lines 142 to 146 normalise the field set: \<open>fds\<close> is the caller's
  object itself unless that is a string, so \<open>fds.append\<close> changes the caller's list. The
  first component of the result is the caller's \<open>fields\<close> object after the call. The test
  \<open>"datetime" not in fds\<close> raises \<open>TypeError\<close> when \<open>fds\<close> is \<open>None\<close>.
\<close>

definition resample_k_bars ::
  "(string \<Rightarrow> int \<Rightarrow> int) \<Rightarrow> bars \<Rightarrow> fields \<Rightarrow> string \<Rightarrow> fields \<times> (error + bars)" where
  "resample_k_bars bin b flds frequency =
     (case flds of
        FNone \<Rightarrow> (FNone, Inl TypeError)
      | FStr s \<Rightarrow>
          (FStr s, aggregate_frame bin b
                     (if ''datetime'' \<notin> set [s] then [s] @ [''datetime''] else [s]) frequency)
      | FList fs \<Rightarrow>
          (if ''datetime'' \<notin> set fs
           then (FList (fs @ [''datetime'']), aggregate_frame bin b (fs @ [''datetime'']) frequency)
           else (FList fs, aggregate_frame bin b fs frequency)))"

section \<open>History windows\<close>

text \<open>
  \<open>a[fields]\<close> on a structured array \<open>a\<close> (lines 193 to 196; with \<open>fields = None\<close> the
  array is returned as it is). A string gives the plain column. A list of names gives the
  array restricted to these fields, and \<open>ValueError\<close> when a name is missing or occurs
  twice; the empty list is read by numpy as an empty list of positions and selects no
  record.
\<close>

fun getfields :: "bars \<Rightarrow> fields \<Rightarrow> error + history" where
  "getfields a FNone = Inr (Records a)"
| "getfields a (FStr s) = (case getitem a s of Inl e \<Rightarrow> Inl e | Inr col \<Rightarrow> Inr (Column col))"
| "getfields a (FList fs) =
     (if fs = [] then Inr (Records (a\<lparr>recs := []\<rparr>))
      else if \<not> set fs \<subseteq> set (names a) \<or> \<not> distinct fs then Inl ValueError
      else Inr (Records (a\<lparr>names := fs\<rparr>)))"

text \<open>
  Lines 190 to 196 of \<open>history_bars\<close>: the boundary \<open>i\<close>, the left end, the slice
  \<open>bars[left:i]\<close> and the projection.
\<close>

definition window :: "('d \<Rightarrow> int) \<Rightarrow> bars \<Rightarrow> int \<Rightarrow> fields \<Rightarrow> 'd \<Rightarrow> error + history" where
  "window conv b bar_count flds dt =
     (case getitem b ''datetime'' of
        Inl e \<Rightarrow> Inl e
      | Inr col \<Rightarrow>
          (let k = conv dt;
               i = searchsorted col k SideRight;
               left = (if int i \<ge> bar_count then int i - bar_count else 0)
           in getfields (b\<lparr>recs := drop (nat left) (take i (recs b))\<rparr>) flds))"

text \<open>
  Lines 185 to 188 of \<open>history_bars\<close>: the two \<open>if\<close> statements that replace \<open>bars\<close> by
  its weekly or monthly resampling.
\<close>

definition by_frequency ::
  "(string \<Rightarrow> int \<Rightarrow> int) \<Rightarrow> bars \<Rightarrow> fields \<Rightarrow> string \<Rightarrow> fields \<times> (error + bars)" where
  "by_frequency bin b flds frequency =
     (if frequency = ''W'' then resample_k_bars bin b flds ''W-Fri''
      else if frequency = ''M'' then resample_k_bars bin b flds ''M''
      else (flds, Inr b))"

text \<open>Lines 177 to 180 of \<open>history_bars\<close>: the series the call works on.\<close>

definition select_bars :: "day_bars \<Rightarrow> instrument \<Rightarrow> bool \<Rightarrow> error + bars option" where
  "select_bars st ins skip_suspended =
     (if skip_suspended \<and> type ins = ''CS'' then filtered_day_bars st ins
      else all_day_bars_of st ins)"

text \<open>
  \<open>history_bars\<close>. The result is the caller's \<open>fields\<close> object after the call, and the
  exception raised or the value returned (\<open>None\<close> or an array). \<open>include_now\<close> is
  accepted and never read, as in the source.
\<close>

definition history_bars ::
  "day_bars \<Rightarrow> ('d \<Rightarrow> int) \<Rightarrow> (string \<Rightarrow> int \<Rightarrow> int) \<Rightarrow> instrument \<Rightarrow> int \<Rightarrow> string \<Rightarrow> fields \<Rightarrow> 'd \<Rightarrow>
   bool \<Rightarrow> bool \<Rightarrow> fields \<times> (error + history option)" where
  "history_bars st conv bin ins bar_count frequency flds dt skip_suspended include_now =
     (if frequency \<notin> set [''1d'', ''W'', ''M''] then (flds, Inl NotImplementedError)
      else case select_bars st ins skip_suspended of
        Inl e \<Rightarrow> (flds, Inl e)
      | Inr None \<Rightarrow> (flds, Inr None)
      | Inr (Some b) \<Rightarrow>
          (if \<not> are_fields_valid flds (names b) then (flds, Inr None)
           else case by_frequency bin b flds frequency of
             (flds', Inl e) \<Rightarrow> (flds', Inl e)
           | (flds', Inr b') \<Rightarrow>
               (flds', map_sum id Some (window conv b' bar_count flds' dt))))"

text \<open>The field names a field set names; \<open>None\<close> names none.\<close>

fun named :: "fields \<Rightarrow> string set" where
  "named FNone = {}"
| "named (FStr s) = {s}"
| "named (FList fs) = set fs"

text \<open>
  A field set that \<open>a[fields]\<close> accepts on an array with the fields \<open>ns\<close>, and the number
  of entries of a result.
\<close>

fun selectable :: "fields \<Rightarrow> string list \<Rightarrow> bool" where
  "selectable FNone ns = True"
| "selectable (FStr s) ns = (s \<in> set ns)"
| "selectable (FList fs) ns = (set fs \<subseteq> set ns \<and> distinct fs)"

fun entries :: "history \<Rightarrow> nat" where
  "entries (Records a) = length (recs a)"
| "entries (Column c) = length c"

section \<open>Example data\<close>

text \<open>
  A concrete store, date encoding and calendar, on which the theorems below are
  instantiated. Dates are encoded as \<open>YYYYMMDD\<close>. The series is one equity with the four
  trading days Monday 1 to Thursday 4 January 2024 (closes 10, 12, 9, 15), a suspended
  Monday 8 January (volume 0) and Tuesday 9 January.
\<close>

record date =
  year :: int
  month :: int
  day :: int

definition date_to_int :: "date \<Rightarrow> int" where
  "date_to_int d = year d * 10000 + month d * 100 + day d"

definition mk_bar :: "int \<Rightarrow> int \<Rightarrow> int \<Rightarrow> int \<Rightarrow> int \<Rightarrow> int \<Rightarrow> int \<Rightarrow> bar" where
  "mk_bar d opn hi lo cls vol tt =
     (\<lambda>_. 0)(''datetime'' := d, ''open'' := opn, ''high'' := hi, ''low'' := lo,
              ''close'' := cls, ''volume'' := vol, ''total_turnover'' := tt)"

definition stock_names :: "string list" where
  "stock_names =
     [''datetime'', ''open'', ''close'', ''high'', ''low'', ''volume'', ''total_turnover'',
      ''limit_up'']"

definition stock_recs :: "bar list" where
  "stock_recs =
     [mk_bar 20240101 9 11 8 10 100 1000,
      mk_bar 20240102 10 13 10 12 200 2400,
      mk_bar 20240103 12 12 9 9 300 2700,
      mk_bar 20240104 9 16 9 15 400 6000,
      mk_bar 20240108 15 15 15 15 0 0,
      mk_bar 20240109 15 17 14 16 500 8000]"

definition stock_series :: bars where
  "stock_series = \<lparr>names = stock_names, recs = stock_recs\<rparr>"

definition stock :: instrument where
  "stock = \<lparr>type = ''CS'', order_book_id = ''000001.XSHE''\<rparr>"

definition unlisted :: instrument where
  "unlisted = \<lparr>type = ''CS'', order_book_id = ''999999.XSHE''\<rparr>"

definition example_store :: day_bars where
  "example_store i oid = (if i = 0 \<and> oid = ''000001.XSHE'' then Some stock_series else None)"

text \<open>
  The proleptic Gregorian ordinal of a date (1 January of year 1 is day 1, a Monday), and
  the bins of the two rules the source passes to \<open>resample\<close>: \<open>W-Fri\<close> weeks run from
  Saturday to Friday, \<open>M\<close> bins are calendar months.
\<close>

definition is_leap :: "int \<Rightarrow> bool" where
  "is_leap y = (y mod 4 = 0 \<and> (y mod 100 \<noteq> 0 \<or> y mod 400 = 0))"

definition days_before_year :: "int \<Rightarrow> int" where
  "days_before_year y = (y - 1) * 365 + (y - 1) div 4 - (y - 1) div 100 + (y - 1) div 400"

definition days_before_month :: "int \<Rightarrow> int \<Rightarrow> int" where
  "days_before_month y m =
     [0, 31, 59, 90, 120, 151, 181, 212, 243, 273, 304, 334] ! nat (m - 1)
     + (if m > 2 \<and> is_leap y then 1 else 0)"

definition ymd2ord :: "int \<Rightarrow> int \<Rightarrow> int \<Rightarrow> int" where
  "ymd2ord y m d = days_before_year y + days_before_month y m + d"

definition calendar_bin :: "string \<Rightarrow> int \<Rightarrow> int" where
  "calendar_bin frequency k =
     (let y = k div 10000; m = k div 100 mod 100; d = k mod 100
      in if frequency = ''M'' then y * 12 + (m - 1) else (ymd2ord y m d + 1) div 7)"

section \<open>Binary search on an ascending column\<close>

lemma bisect_stop: "\<not> lo < hi \<Longrightarrow> bisect s a v lo hi = lo"
  by (subst bisect.simps) simp

lemma bisect_step_right:
  "lo < hi \<Longrightarrow> goes_right s (a ! (lo + (hi - lo) div 2)) v \<Longrightarrow>
   bisect s a v lo hi = bisect s a v (lo + (hi - lo) div 2 + 1) hi"
  by (subst bisect.simps) (simp add: Let_def)

lemma bisect_step_left:
  "lo < hi \<Longrightarrow> \<not> goes_right s (a ! (lo + (hi - lo) div 2)) v \<Longrightarrow>
   bisect s a v lo hi = bisect s a v lo (lo + (hi - lo) div 2)"
  by (subst bisect.simps) (simp add: Let_def)

lemma goes_right_mono: "x \<le> y \<Longrightarrow> goes_right s y v \<Longrightarrow> goes_right s x v"
  by (cases s) (simp_all add: goes_right_def)

lemma step_r:
  assumes "sorted a" "lo < hi" "hi \<le> length a" "mid = lo + (hi - lo) div 2"
   "goes_right s (a ! mid) v"
  shows "\<forall>j<mid + 1. goes_right s (a ! j) v"
proof (intro allI impI)
  fix j assume "j < mid + 1"
  then have "j \<le> mid" by simp
  moreover have "mid < length a" using assms by linarith
  ultimately have "a ! j \<le> a ! mid" using \<open>sorted a\<close> by (simp add: sorted_nth_mono)
  then show "goes_right s (a ! j) v" using assms(5) by (rule goes_right_mono)
qed

lemma step_l:
  assumes "sorted a" "lo < hi" "hi \<le> length a" "mid = lo + (hi - lo) div 2"
   "\<not> goes_right s (a ! mid) v"
  shows "\<forall>j. mid \<le> j \<and> j < length a \<longrightarrow> \<not> goes_right s (a ! j) v"
proof (intro allI impI)
  fix j assume j: "mid \<le> j \<and> j < length a"
  with \<open>sorted a\<close> have "a ! mid \<le> a ! j" by (simp add: sorted_nth_mono)
  with assms(5) show "\<not> goes_right s (a ! j) v" using goes_right_mono by blast
qed

text \<open>
  The loop invariant of the search: everything left of \<open>lo\<close> is passed, nothing from
  \<open>hi\<close> on is; on an ascending column the result splits the column exactly.
\<close>

lemma bisect_correct:
  assumes "sorted a" and "lo \<le> hi" and "hi \<le> length a"
    and "\<forall>j<lo. goes_right s (a ! j) v"
    and "\<forall>j. hi \<le> j \<and> j < length a \<longrightarrow> \<not> goes_right s (a ! j) v"
  shows "lo \<le> bisect s a v lo hi \<and> bisect s a v lo hi \<le> hi \<and> split_at s a v (bisect s a v lo hi)"
  using assms
proof (induction s a v lo hi rule: bisect.induct)
  case (1 s a v lo hi)
  show ?case
  proof (cases "lo < hi")
    case False
    with "1.prems"(2) have "lo = hi" by simp
    then have "bisect s a v lo hi = hi" by (simp add: bisect_stop)
    with \<open>lo = hi\<close> "1.prems"(4,5) show ?thesis unfolding split_at_def by simp
  next
    case True
    define mid where "mid = lo + (hi - lo) div 2"
    have m: "lo \<le> mid" "mid < hi" using True by (simp_all add: mid_def)
    show ?thesis
    proof (cases "goes_right s (a ! mid) v")
      case right: True
      have passed: "\<forall>j<mid + 1. goes_right s (a ! j) v"
        using step_r [OF "1.prems"(1) True "1.prems"(3) mid_def right] .
      have le: "mid + 1 \<le> hi" using m by simp
      have eq: "bisect s a v lo hi = bisect s a v (mid + 1) hi"
        unfolding mid_def using True right bisect_step_right mid_def by blast
      have "mid + 1 \<le> bisect s a v (mid + 1) hi \<and> bisect s a v (mid + 1) hi \<le> hi \<and>
            split_at s a v (bisect s a v (mid + 1) hi)"
        by (rule "1.IH"(1) [OF True mid_def right "1.prems"(1) le "1.prems"(3) passed "1.prems"(5)])
      then show ?thesis unfolding eq using m(1) by linarith
    next
      case left: False
      have kept: "\<forall>j. mid \<le> j \<and> j < length a \<longrightarrow> \<not> goes_right s (a ! j) v"
        using step_l [OF "1.prems"(1) True "1.prems"(3) mid_def left] .
      have le: "mid \<le> length a" using m "1.prems"(3) by simp
      have eq: "bisect s a v lo hi = bisect s a v lo mid"
        unfolding mid_def using True left bisect_step_left mid_def by blast
      have "lo \<le> bisect s a v lo mid \<and> bisect s a v lo mid \<le> mid \<and>
            split_at s a v (bisect s a v lo mid)"
        by (rule "1.IH"(2) [OF True mid_def left "1.prems"(1) m(1) le "1.prems"(4) kept])
      then show ?thesis unfolding eq using m(2) by linarith
    qed
  qed
qed

lemma searchsorted_correct:
  assumes "sorted a"
  shows "searchsorted a v s \<le> length a \<and> split_at s a v (searchsorted a v s)"
proof -
  have none_left: "\<forall>j<0::nat. goes_right s (a ! j) v" by simp
  have none_right: "\<forall>j. length a \<le> j \<and> j < length a \<longrightarrow> \<not> goes_right s (a ! j) v"
    by (intro allI impI) linarith
  have "0 \<le> bisect s a v 0 (length a) \<and> bisect s a v 0 (length a) \<le> length a \<and>
        split_at s a v (bisect s a v 0 (length a))"
    by (rule bisect_correct [OF assms _ _ none_left none_right]) simp_all
  then show ?thesis unfolding searchsorted_def by blast
qed

lemma searchsorted_le_length: "sorted a \<Longrightarrow> searchsorted a v s \<le> length a"
  using searchsorted_correct by blast

lemma searchsorted_right_before:
  assumes "sorted a" and "j < searchsorted a v SideRight"
  shows "a ! j \<le> v"
proof -
  have "split_at SideRight a v (searchsorted a v SideRight)"
    using searchsorted_correct [OF assms(1)] by blast
  then have "goes_right SideRight (a ! j) v" unfolding split_at_def using assms(2) by blast
  then show ?thesis by (simp add: goes_right_def)
qed

lemma searchsorted_right_after:
  assumes "sorted a" and "searchsorted a v SideRight \<le> j" and "j < length a"
  shows "v < a ! j"
proof -
  have "split_at SideRight a v (searchsorted a v SideRight)"
    using searchsorted_correct [OF assms(1)] by blast
  then have "\<not> goes_right SideRight (a ! j) v" unfolding split_at_def using assms(2,3) by blast
  then show ?thesis by (simp add: goes_right_def)
qed

lemma searchsorted_left_before:
  assumes "sorted a" and "j < searchsorted a v SideLeft"
  shows "a ! j < v"
proof -
  have "split_at SideLeft a v (searchsorted a v SideLeft)"
    using searchsorted_correct [OF assms(1)] by blast
  then have "goes_right SideLeft (a ! j) v" unfolding split_at_def using assms(2) by blast
  then show ?thesis by (simp add: goes_right_def)
qed

lemma searchsorted_left_after:
  assumes "sorted a" and "searchsorted a v SideLeft \<le> j" and "j < length a"
  shows "v \<le> a ! j"
proof -
  have "split_at SideLeft a v (searchsorted a v SideLeft)"
    using searchsorted_correct [OF assms(1)] by blast
  then have "\<not> goes_right SideLeft (a ! j) v" unfolding split_at_def using assms(2,3) by blast
  then show ?thesis by (simp add: goes_right_def)
qed

section \<open>Facts about the example data\<close>

lemma mk_bar_fields:
  "mk_bar d opn hi lo cls vol tt ''datetime'' = d"
  "mk_bar d opn hi lo cls vol tt ''open'' = opn"
  "mk_bar d opn hi lo cls vol tt ''high'' = hi"
  "mk_bar d opn hi lo cls vol tt ''low'' = lo"
  "mk_bar d opn hi lo cls vol tt ''close'' = cls"
  "mk_bar d opn hi lo cls vol tt ''volume'' = vol"
  "mk_bar d opn hi lo cls vol tt ''total_turnover'' = tt"
  by (simp_all add: mk_bar_def)

lemma example_series:
  "all_day_bars_of example_store stock = Inr (Some stock_series)"
  "all_day_bars_of example_store unlisted = Inr None"
  by (simp_all add: all_day_bars_of_def index_of_def INSTRUMENT_TYPE_MAP_def stock_def
      unlisted_def example_store_def)

lemma stock_series_ascending:
  "sorted (map (\<lambda>r. r ''datetime'') (recs stock_series))"
  by (simp add: stock_series_def stock_recs_def mk_bar_fields)

lemma stock_series_names:
  "''datetime'' \<in> set (names stock_series)" "''volume'' \<in> set (names stock_series)"
  by (simp_all add: stock_series_def stock_names_def)

section \<open>The volume-filtered series\<close>

text \<open>
  C4. Where the full series of an instrument is present (and has a \<open>volume\<close> column), the
  filtered series is present, has the same fields, and its records are exactly the
  records of the full series with \<open>volume > 0\<close>, in their order; where the full series
  is absent, so is the filtered one.
\<close>

theorem filtered_series:
  assumes "all_day_bars_of st ins = Inr series"
    and "\<forall>b. series = Some b \<longrightarrow> ''volume'' \<in> set (names b)"
  shows "case series of
           None \<Rightarrow> filtered_day_bars st ins = Inr None
         | Some b \<Rightarrow>
             (\<exists>fb. filtered_day_bars st ins = Inr (Some fb) \<and>
                   names fb = names b \<and>
                   recs fb = filter (\<lambda>r. r ''volume'' > 0) (recs b) \<and>
                   subseq (recs fb) (recs b) \<and>
                   (\<forall>r. r \<in> set (recs fb) \<longleftrightarrow> r \<in> set (recs b) \<and> r ''volume'' > 0))"
proof (cases series)
  case None
  with assms(1) show ?thesis by (simp add: filtered_day_bars_def)
next
  case (Some b)
  with assms(2) have "''volume'' \<in> set (names b)" by simp
  with assms(1) Some
  have "filtered_day_bars st ins = Inr (Some (b\<lparr>recs := filter (\<lambda>r. r ''volume'' > 0) (recs b)\<rparr>))"
    by (simp add: filtered_day_bars_def getitem_def)
  with Some show ?thesis by simp
qed

theorem filtered_series_witness:
  "all_day_bars_of example_store stock = Inr (Some stock_series) \<and>
   ''volume'' \<in> set (names stock_series) \<and>
   filtered_day_bars example_store stock
     = Inr (Some \<lparr>names = stock_names,
                   recs = [mk_bar 20240101 9 11 8 10 100 1000, mk_bar 20240102 10 13 10 12 200 2400,
                           mk_bar 20240103 12 12 9 9 300 2700, mk_bar 20240104 9 16 9 15 400 6000,
                           mk_bar 20240109 15 17 14 16 500 8000]\<rparr>) \<and>
   all_day_bars_of example_store unlisted = Inr None \<and>
   filtered_day_bars example_store unlisted = Inr None"
proof -
  have wf: "\<forall>b. Some stock_series = Some b \<longrightarrow> ''volume'' \<in> set (names b)"
    using stock_series_names by simp
  have wf_none: "\<forall>b. (None :: bars option) = Some b \<longrightarrow> ''volume'' \<in> set (names b)"
    by simp
  have "filtered_day_bars example_store stock
     = Inr (Some \<lparr>names = stock_names,
                   recs = [mk_bar 20240101 9 11 8 10 100 1000, mk_bar 20240102 10 13 10 12 200 2400,
                           mk_bar 20240103 12 12 9 9 300 2700, mk_bar 20240104 9 16 9 15 400 6000,
                           mk_bar 20240109 15 17 14 16 500 8000]\<rparr>)"
    using filtered_series [OF example_series(1) wf]
    by (auto simp: stock_series_def stock_recs_def mk_bar_fields)
  moreover have "filtered_day_bars example_store unlisted = Inr None"
    using filtered_series [OF example_series(2) wf_none] by simp
  ultimately show ?thesis using example_series stock_series_names by simp
qed

section \<open>Exact-date lookup with get_bar\<close>

text \<open>
  On an ascending column the left search followed by the equality test finds the first
  record with the wanted key, if there is one.
\<close>

lemma exact_lookup:
  assumes "sorted (map f rs)"
  shows "(let pos = searchsorted (map f rs) k SideLeft
          in if pos \<ge> length rs \<or> map f rs ! pos \<noteq> k then None else Some (rs ! pos))
         = find (\<lambda>r. f r = k) rs"
proof -
  define pos where "pos = searchsorted (map f rs) k SideLeft"
  have before: "f (rs ! j) < k" if "j < pos" for j
  proof -
    have "pos \<le> length (map f rs)" unfolding pos_def by (rule searchsorted_le_length [OF assms])
    with that have "j < length rs" by simp
    moreover have "map f rs ! j < k"
      using searchsorted_left_before [OF assms] that unfolding pos_def by blast
    ultimately show ?thesis by simp
  qed
  have after: "k \<le> f (rs ! j)" if "pos \<le> j" "j < length rs" for j
  proof -
    have "k \<le> map f rs ! j"
      using searchsorted_left_after [OF assms, of k j] that unfolding pos_def by simp
    with that show ?thesis by simp
  qed
  show ?thesis
  proof (cases "pos \<ge> length rs \<or> map f rs ! pos \<noteq> k")
    case False
    then have p: "pos < length rs" "f (rs ! pos) = k" by auto
    have "find (\<lambda>r. f r = k) rs = Some (rs ! pos)"
      unfolding find_Some_iff using p before by (intro exI [of _ pos]) fastforce
    with False show ?thesis unfolding pos_def [symmetric] by (simp add: Let_def)
  next
    case True
    have "f r \<noteq> k" if "r \<in> set rs" for r
    proof -
      from that obtain j where j: "j < length rs" "r = rs ! j" by (auto simp: in_set_conv_nth)
      show ?thesis
      proof (cases "j < pos")
        case True
        with before [of j] j show ?thesis by simp
      next
        case False
        then have "pos \<le> j" by simp
        with j have pl: "pos < length rs \<or> pos = j" by linarith
        with j(1) \<open>pos \<le> j\<close> have "pos < length rs" by linarith
        with True have ne: "f (rs ! pos) \<noteq> k" by simp
        have "k \<le> f (rs ! pos)" using after [of pos] \<open>pos < length rs\<close> by simp
        with ne have "k < f (rs ! pos)" by simp
        moreover have "f (rs ! pos) \<le> f (rs ! j)"
          using sorted_nth_mono [OF assms, of pos j] \<open>pos \<le> j\<close> j(1) by simp
        ultimately show ?thesis using j by simp
      qed
    qed
    then have "find (\<lambda>r. f r = k) rs = None" unfolding find_None_iff by blast
    with True show ?thesis unfolding pos_def [symmetric] by (simp add: Let_def)
  qed
qed

text \<open>
  C5. For an instrument whose full series is present (ascending by \<open>datetime\<close>), daily
  \<open>get_bar\<close> returns a record of the series whose \<open>datetime\<close> is the encoded date if the
  series has one, and \<open>None\<close> otherwise (also for a date past the end); for an instrument
  without a series the result is \<open>None\<close>, not an error.
\<close>

theorem get_bar_exact:
  assumes "all_day_bars_of st ins = Inr series"
    and "\<forall>b. series = Some b \<longrightarrow>
           ''datetime'' \<in> set (names b) \<and> sorted (map (\<lambda>r. r ''datetime'') (recs b))"
  shows "case series of
           None \<Rightarrow> get_bar st conv ins d ''1d'' = Inr None
         | Some b \<Rightarrow>
             get_bar st conv ins d ''1d'' = Inr (find (\<lambda>r. r ''datetime'' = conv d) (recs b)) \<and>
             ((\<exists>r \<in> set (recs b). r ''datetime'' = conv d) \<longrightarrow>
                (\<exists>r \<in> set (recs b). r ''datetime'' = conv d \<and>
                   get_bar st conv ins d ''1d'' = Inr (Some r))) \<and>
             ((\<forall>r \<in> set (recs b). r ''datetime'' \<noteq> conv d) \<longrightarrow>
                get_bar st conv ins d ''1d'' = Inr None)"
proof (cases series)
  case None
  with assms(1) show ?thesis by (simp add: get_bar_def)
next
  case (Some b)
  with assms(2) have dt: "''datetime'' \<in> set (names b)"
    and asc: "sorted (map (\<lambda>r. r ''datetime'') (recs b))" by simp_all
  have eq: "get_bar st conv ins d ''1d'' = Inr (find (\<lambda>r. r ''datetime'' = conv d) (recs b))"
    using exact_lookup [OF asc, of "conv d"] assms(1) Some dt
    by (auto simp: get_bar_def getitem_def Let_def split: if_splits)
  have found: "\<exists>r \<in> set (recs b). r ''datetime'' = conv d \<and>
                 find (\<lambda>r. r ''datetime'' = conv d) (recs b) = Some r"
    if "\<exists>r \<in> set (recs b). r ''datetime'' = conv d"
  proof (cases "find (\<lambda>r. r ''datetime'' = conv d) (recs b)")
    case None
    with that show ?thesis by (auto simp: find_None_iff)
  next
    case (Some r)
    then show ?thesis by (auto simp: find_Some_iff)
  qed
  have missing: "find (\<lambda>r. r ''datetime'' = conv d) (recs b) = None"
    if "\<forall>r \<in> set (recs b). r ''datetime'' \<noteq> conv d"
    using that by (auto simp: find_None_iff)
  show ?thesis using Some eq found missing by simp
qed

theorem get_bar_exact_witness:
  "all_day_bars_of example_store stock = Inr (Some stock_series) \<and>
   ''datetime'' \<in> set (names stock_series) \<and>
   sorted (map (\<lambda>r. r ''datetime'') (recs stock_series)) \<and>
   get_bar example_store date_to_int stock \<lparr>year = 2024, month = 1, day = 3\<rparr> ''1d''
     = Inr (Some (mk_bar 20240103 12 12 9 9 300 2700)) \<and>
   get_bar example_store date_to_int stock \<lparr>year = 2024, month = 1, day = 6\<rparr> ''1d'' = Inr None \<and>
   get_bar example_store date_to_int stock \<lparr>year = 2024, month = 2, day = 1\<rparr> ''1d'' = Inr None \<and>
   all_day_bars_of example_store unlisted = Inr None \<and>
   get_bar example_store date_to_int unlisted \<lparr>year = 2024, month = 1, day = 3\<rparr> ''1d'' = Inr None"
proof -
  have wf: "\<forall>b. Some stock_series = Some b \<longrightarrow>
      ''datetime'' \<in> set (names b) \<and> sorted (map (\<lambda>r. r ''datetime'') (recs b))"
    using stock_series_ascending stock_series_names by simp
  have wf_none: "\<forall>b. (None :: bars option) = Some b \<longrightarrow>
      ''datetime'' \<in> set (names b) \<and> sorted (map (\<lambda>r. r ''datetime'') (recs b))"
    by simp
  have "get_bar example_store date_to_int stock \<lparr>year = 2024, month = 1, day = 3\<rparr> ''1d''
          = Inr (Some (mk_bar 20240103 12 12 9 9 300 2700))"
    using get_bar_exact [OF example_series(1) wf, of date_to_int "\<lparr>year = 2024, month = 1, day = 3\<rparr>"]
    by (simp add: date_to_int_def stock_series_def stock_recs_def mk_bar_fields)
  moreover have "get_bar example_store date_to_int stock \<lparr>year = 2024, month = 1, day = 6\<rparr> ''1d''
          = Inr None"
    using get_bar_exact [OF example_series(1) wf, of date_to_int "\<lparr>year = 2024, month = 1, day = 6\<rparr>"]
    by (simp add: date_to_int_def stock_series_def stock_recs_def mk_bar_fields)
  moreover have "get_bar example_store date_to_int stock \<lparr>year = 2024, month = 2, day = 1\<rparr> ''1d''
          = Inr None"
    using get_bar_exact [OF example_series(1) wf, of date_to_int "\<lparr>year = 2024, month = 2, day = 1\<rparr>"]
    by (simp add: date_to_int_def stock_series_def stock_recs_def mk_bar_fields)
  moreover have "get_bar example_store date_to_int unlisted \<lparr>year = 2024, month = 1, day = 3\<rparr> ''1d''
          = Inr None"
    using get_bar_exact [OF example_series(2) wf_none, of date_to_int]
    by simp
  ultimately show ?thesis
    using example_series stock_series_ascending stock_series_names by simp
qed

section \<open>Unsupported frequencies\<close>

text \<open>
  C6. \<open>get_bar\<close> raises \<open>NotImplementedError\<close> for every frequency other than \<open>'1d'\<close>
  (so for \<open>'W'\<close>), and \<open>history_bars\<close> for every frequency outside \<open>'1d'\<close>, \<open>'W'\<close>, \<open>'M'\<close>.
  The result is the same for every store and every other argument, so no series is read
  before the failure, and the caller's field set is untouched.
\<close>

theorem unsupported_frequency:
  "(frequency \<noteq> ''1d'' \<longrightarrow> get_bar st conv ins d frequency = Inl NotImplementedError) \<and>
   (frequency \<notin> {''1d'', ''W'', ''M''} \<longrightarrow>
      history_bars st conv bin ins bar_count frequency flds d skip_suspended include_now
        = (flds, Inl NotImplementedError))"
  by (simp add: get_bar_def history_bars_def)

theorem unsupported_frequency_witness:
  "''W'' \<noteq> ''1d'' \<and> get_bar example_store date_to_int stock \<lparr>year = 2024, month = 1, day = 2\<rparr> ''W''
     = Inl NotImplementedError \<and>
   ''1m'' \<notin> {''1d'', ''W'', ''M''} \<and>
   history_bars example_store date_to_int calendar_bin stock 3 ''1m'' (FList [''close''])
     \<lparr>year = 2024, month = 1, day = 2\<rparr> True False = (FList [''close''], Inl NotImplementedError)"
  using unsupported_frequency [of "''W''" example_store date_to_int stock
      "\<lparr>year = 2024, month = 1, day = 2\<rparr>"]
    unsupported_frequency [of "''1m''" example_store date_to_int stock
      "\<lparr>year = 2024, month = 1, day = 2\<rparr>" calendar_bin 3 "FList [''close'']" True False]
  by simp

end
